theory Spec2Isabelle
  imports Main "HOL-Library.Multiset"
begin

section \<open>The parcel store: data model\<close>

text \<open>
  Modelled from the spec: the declaration of the struct \<open>Parcel\<close>, which \<open>parcel.go\<close>
  uses but does not declare. The fields are the five that \<open>Get\<close> scans, in the order of
  the table's columns; \<open>Number\<close> and \<open>Client\<close> are Go \<open>int\<close>, the others Go \<open>string\<close>.
  The store does no arithmetic on the integers, so they are unbounded here; the one place
  where the 64-bit range matters, the generation of keys, has its bound written out.
\<close>

record Parcel =
  Number :: int
  Client :: int
  Status :: string
  Address :: string
  CreatedAt :: string

text \<open>
  Go's \<open>error\<close> values that the store can hand back: \<open>sql.ErrNoRows\<close>, which only
  \<open>Row.Scan\<close> produces, and any other failure of the engine, with its message.
\<close>

datatype error = ErrNoRows | EngineFailure string

text \<open>
  \<open>ParcelStore\<close> holds nothing but the handle \<open>db\<close>, so the receiver of every method is
  represented by the database that the handle points to, passed in and returned.
  Modelled from the spec: the schema of table \<open>parcel\<close>
  (\<open>number INTEGER PRIMARY KEY AUTOINCREMENT\<close>, four \<open>NOT NULL\<close> columns), which is
  created outside \<open>parcel.go\<close>. The database is the rows of that table in storage order,
  the counter that \<open>AUTOINCREMENT\<close> keeps of the largest key ever handed out, and the
  condition of the engine: \<open>Some msg\<close> when it cannot execute statements (closed handle,
  lost connection, missing table), in which case every statement returns that error and
  changes nothing. The last field is a fault that strikes while a result set is being
  read: \<open>Some (k, msg)\<close> when the stepping of a result set stops with the error \<open>msg\<close>
  once \<open>k + 1\<close> rows have been read and more are due (interrupted statement, input or
  output error). A read of a single row ends with the first row and is not affected.
\<close>

record DB =
  parcel :: "Parcel list"
  sqlite_sequence :: int
  failure :: "string option"
  cursor_fault :: "(nat \<times> string) option"

text \<open>The primary-key constraint of the schema: no two rows share a number.\<close>

definition pk_unique :: "DB \<Rightarrow> bool" where
  "pk_unique d = distinct (map Number (parcel d))"

text \<open>\<open>sql.Result\<close>, as returned by \<open>Exec\<close> for the \<open>INSERT\<close>. The result of an
  \<open>UPDATE\<close> or \<open>DELETE\<close>, which the store discards, is represented by its number of
  affected rows alone.\<close>

record Result =
  last_insert_id :: int
  rows_affected :: int

definition LastInsertId :: "Result \<Rightarrow> error + int" where
  "LastInsertId res = Inr (last_insert_id res)"

section \<open>The statements the store sends to the engine\<close>

text \<open>
  The key of a new row under \<open>AUTOINCREMENT\<close>: one more than the largest key that the
  table holds or has ever held.
\<close>

definition next_number :: "DB \<Rightarrow> int" where
  "next_number d = foldr max (map Number (parcel d)) (sqlite_sequence d) + 1"

definition max_rowid :: int where
  "max_rowid = 9223372036854775807"

text \<open>
  \<open>INSERT INTO parcel (client, status, address, created_at) VALUES (?, ?, ?, ?)\<close>.
  The engine refuses the insert once the largest 64-bit key has been used.
\<close>

definition Exec_insert :: "int \<Rightarrow> string \<Rightarrow> string \<Rightarrow> string \<Rightarrow> DB \<Rightarrow> (error + Result) \<times> DB" where
  "Exec_insert c st a t d =
     (case failure d of
        Some msg \<Rightarrow> (Inl (EngineFailure msg), d)
      | None \<Rightarrow>
          (let k = next_number d in
           if max_rowid < k then (Inl (EngineFailure ''database or disk is full''), d)
           else (Inr \<lparr>last_insert_id = k, rows_affected = 1\<rparr>,
                 d\<lparr>parcel := parcel d @
                      [\<lparr>Number = k, Client = c, Status = st, Address = a, CreatedAt = t\<rparr>],
                   sqlite_sequence := k\<rparr>)))"

text \<open>\<open>SELECT * FROM parcel WHERE number = ?\<close>, through \<open>QueryRow\<close>, which keeps an
  error of the engine until \<open>Scan\<close> is called.\<close>

definition QueryRow_number :: "int \<Rightarrow> DB \<Rightarrow> error + Parcel list" where
  "QueryRow_number n d =
     (case failure d of
        Some msg \<Rightarrow> Inl (EngineFailure msg)
      | None \<Rightarrow> Inr (filter (\<lambda>r. Number r = n) (parcel d)))"

text \<open>\<open>Row.Scan\<close>: the kept error, else \<open>ErrNoRows\<close> when there is no row, else the
  first row.\<close>

fun Row_Scan :: "error + Parcel list \<Rightarrow> error + Parcel" where
  "Row_Scan (Inl err) = Inl err"
| "Row_Scan (Inr []) = Inl ErrNoRows"
| "Row_Scan (Inr (r # rs)) = Inr r"

text \<open>\<open>sql.Rows\<close>: the rows for which \<open>Next\<close> will still return true, in order, and
  the error, if any, that ends the iteration after them. \<open>Next\<close> returns false when the
  rows have run out and also when that error has struck; \<open>Err\<close> tells the two apart.\<close>

datatype Rows = Rows "Parcel list" "error option"

fun Rows_Err :: "Rows \<Rightarrow> error option" where
  "Rows_Err (Rows rs e) = e"

text \<open>\<open>SELECT * FROM parcel WHERE client = ?\<close>, through \<open>Query\<close>. Under a fault of
  the iteration, the result set delivers the first \<open>k + 1\<close> matching rows and then ends
  with the error, provided more rows match.\<close>

definition Query_client :: "int \<Rightarrow> DB \<Rightarrow> error + Rows" where
  "Query_client c d =
     (case failure d of
        Some msg \<Rightarrow> Inl (EngineFailure msg)
      | None \<Rightarrow>
          (let matching = filter (\<lambda>r. Client r = c) (parcel d) in
           case cursor_fault d of
             None \<Rightarrow> Inr (Rows matching None)
           | Some (k, msg) \<Rightarrow>
               if Suc k < length matching
               then Inr (Rows (take (Suc k) matching) (Some (EngineFailure msg)))
               else Inr (Rows matching None)))"

text \<open>\<open>Rows.Scan\<close> of the current row into the five fields: the columns are typed by the
  schema and non-null, so the conversion succeeds.\<close>

definition Rows_Scan :: "Parcel \<Rightarrow> error + Parcel" where
  "Rows_Scan r = Inr r"

text \<open>\<open>UPDATE parcel SET status = ? WHERE number = ?\<close>.\<close>

definition Exec_update_status :: "string \<Rightarrow> int \<Rightarrow> DB \<Rightarrow> (error + int) \<times> DB" where
  "Exec_update_status st n d =
     (case failure d of
        Some msg \<Rightarrow> (Inl (EngineFailure msg), d)
      | None \<Rightarrow>
          (Inr (int (length (filter (\<lambda>r. Number r = n) (parcel d)))),
           d\<lparr>parcel := map (\<lambda>r. if Number r = n then r\<lparr>Status := st\<rparr> else r) (parcel d)\<rparr>))"

text \<open>\<open>UPDATE parcel SET address = ? WHERE number = ? AND status = 'registered'\<close>.\<close>

definition Exec_update_address :: "string \<Rightarrow> int \<Rightarrow> DB \<Rightarrow> (error + int) \<times> DB" where
  "Exec_update_address a n d =
     (case failure d of
        Some msg \<Rightarrow> (Inl (EngineFailure msg), d)
      | None \<Rightarrow>
          (Inr (int (length (filter (\<lambda>r. Number r = n \<and> Status r = ''registered'') (parcel d)))),
           d\<lparr>parcel := map (\<lambda>r. if Number r = n \<and> Status r = ''registered''
                                  then r\<lparr>Address := a\<rparr> else r) (parcel d)\<rparr>))"

text \<open>\<open>DELETE FROM parcel WHERE number = ? AND status = 'registered'\<close>.\<close>

definition Exec_delete :: "int \<Rightarrow> DB \<Rightarrow> (error + int) \<times> DB" where
  "Exec_delete n d =
     (case failure d of
        Some msg \<Rightarrow> (Inl (EngineFailure msg), d)
      | None \<Rightarrow>
          (Inr (int (length (filter (\<lambda>r. Number r = n \<and> Status r = ''registered'') (parcel d)))),
           d\<lparr>parcel := filter (\<lambda>r. \<not> (Number r = n \<and> Status r = ''registered'')) (parcel d)\<rparr>))"

section \<open>The methods of ParcelStore\<close>

text \<open>
  A method returning \<open>(T, error)\<close> returns \<open>error + T\<close> here (the zero value that Go
  returns beside an error is dropped); a method returning \<open>error\<close> returns
  \<open>error option\<close>, \<open>None\<close> for \<open>nil\<close>. Methods that write return the database too.
  The conversion \<open>int(id)\<close> in \<open>Add\<close> is the identity on a 64-bit target, where the
  generated keys lie between 1 and \<open>max_rowid\<close>.
\<close>

definition Add :: "Parcel \<Rightarrow> DB \<Rightarrow> (error + int) \<times> DB" where
  "Add p s =
     (case Exec_insert (Client p) (Status p) (Address p) (CreatedAt p) s of
        (Inl err, s') \<Rightarrow> (Inl err, s')
      | (Inr result, s') \<Rightarrow>
          (case LastInsertId result of
             Inl err \<Rightarrow> (Inl err, s')
           | Inr id64 \<Rightarrow> (Inr id64, s')))"

definition Get :: "int \<Rightarrow> DB \<Rightarrow> error + Parcel" where
  "Get number s =
     (let row = QueryRow_number number s in
      case Row_Scan row of
        Inl err \<Rightarrow> Inl err
      | Inr p \<Rightarrow> Inr p)"

text \<open>The loop \<open>for rows.Next()\<close> of \<open>GetByClient\<close>: while \<open>Next\<close> returns true, scan
  the row, return at an error of the scan, else append the row to \<open>res\<close>. When \<open>Next\<close>
  returns false the method returns \<open>res\<close> and \<open>nil\<close>; it does not call \<open>rows.Err()\<close>,
  so the error \<open>e\<close> of the first equation is not looked at.\<close>

function rows_loop :: "Rows \<Rightarrow> Parcel list \<Rightarrow> error + Parcel list" where
  "rows_loop (Rows [] e) res = Inr res"
| "rows_loop (Rows (r # rs) e) res =
     (case Rows_Scan r of
        Inl err \<Rightarrow> Inl err
      | Inr p \<Rightarrow> rows_loop (Rows rs e) (res @ [p]))"
  by pat_completeness auto
termination
  by (relation "measure (\<lambda>(rows, res). case rows of Rows rs e \<Rightarrow> length rs)") auto

definition GetByClient :: "int \<Rightarrow> DB \<Rightarrow> error + Parcel list" where
  "GetByClient client s =
     (case Query_client client s of
        Inl err \<Rightarrow> Inl err
      | Inr rows \<Rightarrow> rows_loop rows [])"

definition SetStatus :: "int \<Rightarrow> string \<Rightarrow> DB \<Rightarrow> error option \<times> DB" where
  "SetStatus number status s =
     (case Exec_update_status status number s of
        (Inl err, s') \<Rightarrow> (Some err, s')
      | (Inr result, s') \<Rightarrow> (None, s'))"

definition SetAddress :: "int \<Rightarrow> string \<Rightarrow> DB \<Rightarrow> error option \<times> DB" where
  "SetAddress number address s =
     (case Exec_update_address address number s of
        (Inl err, s') \<Rightarrow> (Some err, s')
      | (Inr result, s') \<Rightarrow> (None, s'))"

definition Delete :: "int \<Rightarrow> DB \<Rightarrow> error option \<times> DB" where
  "Delete number s =
     (case Exec_delete number s of
        (Inl err, s') \<Rightarrow> (Some err, s')
      | (Inr result, s') \<Rightarrow> (None, s'))"

text \<open>The calls of the interface, and the database that each leaves behind; the two
  reads leave it as it is.\<close>

datatype Op =
    OpAdd Parcel
  | OpGet int
  | OpGetByClient int
  | OpSetStatus int string
  | OpSetAddress int string
  | OpDelete int

fun apply_op :: "Op \<Rightarrow> DB \<Rightarrow> DB" where
  "apply_op (OpAdd p) s = snd (Add p s)"
| "apply_op (OpGet n) s = s"
| "apply_op (OpGetByClient c) s = s"
| "apply_op (OpSetStatus n st) s = snd (SetStatus n st s)"
| "apply_op (OpSetAddress n a) s = snd (SetAddress n a s)"
| "apply_op (OpDelete n) s = snd (Delete n s)"

text \<open>A sequence of calls, from a given database.\<close>

fun run :: "Op list \<Rightarrow> DB \<Rightarrow> DB" where
  "run [] s = s"
| "run (op # ops) s = run ops (apply_op op s)"

text \<open>The scenario of the spec's testable properties: the test parcel, and a database
  that holds one registered parcel and one that has been sent.\<close>

definition test_parcel :: Parcel where
  "test_parcel = \<lparr>Number = 0, Client = 1000, Status = ''registered'', Address = ''test'',
     CreatedAt = ''2024-01-01T00:00:00Z''\<rparr>"

definition test_db :: DB where
  "test_db = \<lparr>parcel =
       [\<lparr>Number = 1, Client = 1000, Status = ''registered'', Address = ''test'',
          CreatedAt = ''2024-01-01T00:00:00Z''\<rparr>,
        \<lparr>Number = 2, Client = 1000, Status = ''sent'', Address = ''new address'',
          CreatedAt = ''2024-01-01T00:00:00Z''\<rparr>],
     sqlite_sequence = 2, failure = None, cursor_fault = None\<rparr>"

text \<open>The same database on an engine whose result sets are cut off after the first
  row.\<close>

definition cut_db :: DB where
  "cut_db = test_db\<lparr>cursor_fault := Some (0, ''interrupted'')\<rparr>"

section \<open>Facts about the engine's statements\<close>

lemma foldr_max_ge_elem: "x \<in> set xs \<Longrightarrow> x \<le> foldr max xs (b::int)"
  by (induction xs) auto

lemma next_number_fresh: "r \<in> set (parcel d) \<Longrightarrow> Number r < next_number d"
proof -
  assume "r \<in> set (parcel d)"
  then have "Number r \<in> set (map Number (parcel d))" by simp
  then have "Number r \<le> foldr max (map Number (parcel d)) (sqlite_sequence d)"
    by (rule foldr_max_ge_elem)
  then show ?thesis by (simp add: next_number_def)
qed

lemma filter_fresh_empty:
  "filter (\<lambda>r. Number r = next_number d) (parcel d) = []"
proof -
  have "\<forall>r\<in>set (parcel d). Number r \<noteq> next_number d"
    using next_number_fresh by fastforce
  then show ?thesis by (simp add: filter_empty_conv)
qed

lemma rows_loop_append: "rows_loop (Rows rs e) res = Inr (res @ rs)"
  by (induction rs arbitrary: res) (simp_all add: Rows_Scan_def)

lemma filter_unique_row:
  "distinct (map Number rows) \<Longrightarrow> r \<in> set rows \<Longrightarrow>
   filter (\<lambda>x. Number x = Number r) rows = [r]"
proof (induction rows)
  case Nil
  then show ?case by simp
next
  case (Cons x rows)
  show ?case
  proof (cases "x = r")
    case True
    have "\<forall>y\<in>set rows. Number y \<noteq> Number r"
      using Cons.prems(1) True by (auto simp: image_iff)
    then have "filter (\<lambda>x. Number x = Number r) rows = []"
      by (simp add: filter_empty_conv)
    with True show ?thesis by simp
  next
    case False
    with Cons.prems have in_rows: "r \<in> set rows" by simp
    with Cons.prems(1) have "Number x \<noteq> Number r" by auto
    moreover have "filter (\<lambda>x. Number x = Number r) rows = [r]"
      using Cons.IH Cons.prems(1) in_rows by simp
    ultimately show ?thesis by simp
  qed
qed

lemma SetStatus_runs:
  "failure s = None \<Longrightarrow>
   SetStatus n st s =
     (None, s\<lparr>parcel := map (\<lambda>r. if Number r = n then r\<lparr>Status := st\<rparr> else r) (parcel s)\<rparr>)"
  by (simp add: SetStatus_def Exec_update_status_def)

lemma SetAddress_runs:
  "failure s = None \<Longrightarrow>
   SetAddress n a s =
     (None, s\<lparr>parcel := map (\<lambda>r. if Number r = n \<and> Status r = ''registered''
                                   then r\<lparr>Address := a\<rparr> else r) (parcel s)\<rparr>)"
  by (simp add: SetAddress_def Exec_update_address_def)

lemma Delete_runs:
  "failure s = None \<Longrightarrow>
   Delete n s =
     (None, s\<lparr>parcel := filter (\<lambda>r. \<not> (Number r = n \<and> Status r = ''registered'')) (parcel s)\<rparr>)"
  by (simp add: Delete_def Exec_delete_def)

lemma Get_finds_row:
  assumes "failure s = None" and "pk_unique s" and "r \<in> set (parcel s)"
  shows "Get (Number r) s = Inr r"
proof -
  have "filter (\<lambda>x. Number x = Number r) (parcel s) = [r]"
    using assms(2,3) by (simp add: pk_unique_def filter_unique_row)
  then show ?thesis using assms(1) by (simp add: Get_def QueryRow_number_def)
qed

lemma Get_no_row:
  assumes "failure s = None" and "\<forall>r\<in>set (parcel s). Number r \<noteq> n"
  shows "Get n s = Inl ErrNoRows"
proof -
  have "filter (\<lambda>x. Number x = n) (parcel s) = []"
    using assms(2) by (simp add: filter_empty_conv)
  then show ?thesis using assms(1) by (simp add: Get_def QueryRow_number_def)
qed

lemma update_keeps_numbers:
  "(\<And>r. Number (f r) = Number r) \<Longrightarrow> map Number (map f rows) = map Number rows"
  by (induction rows) simp_all

lemma update_nothing:
  "\<forall>r\<in>set rows. \<not> P r \<Longrightarrow> map (\<lambda>r. if P r then f r else r) rows = rows"
  by (induction rows) simp_all

lemma delete_nothing:
  "\<forall>r\<in>set rows. \<not> P r \<Longrightarrow> filter (\<lambda>r. \<not> P r) rows = rows"
  by (induction rows) simp_all

lemma same_number_same_row:
  assumes "pk_unique s" and "r \<in> set (parcel s)" and "r' \<in> set (parcel s)"
    and "Number r' = Number r"
  shows "r' = r"
proof -
  have "filter (\<lambda>x. Number x = Number r) (parcel s) = [r]"
    using assms(1,2) by (simp add: pk_unique_def filter_unique_row)
  moreover have "r' \<in> set (filter (\<lambda>x. Number x = Number r) (parcel s))"
    using assms(3,4) by simp
  ultimately show ?thesis by simp
qed

lemma pk_unique_SetStatus: "pk_unique s \<Longrightarrow> pk_unique (snd (SetStatus n st s))"
proof (cases "failure s")
  case None
  assume u: "pk_unique s"
  have "map Number (map (\<lambda>r. if Number r = n then r\<lparr>Status := st\<rparr> else r) (parcel s))
      = map Number (parcel s)"
    by (rule update_keeps_numbers) simp
  then have "distinct (map Number
      (map (\<lambda>r. if Number r = n then r\<lparr>Status := st\<rparr> else r) (parcel s)))"
    using u by (simp only: pk_unique_def)
  then show ?thesis using None by (simp add: SetStatus_runs pk_unique_def del: map_map)
next
  case (Some msg)
  assume "pk_unique s"
  with Some show ?thesis by (simp add: SetStatus_def Exec_update_status_def)
qed

lemma pk_unique_SetAddress: "pk_unique s \<Longrightarrow> pk_unique (snd (SetAddress n a s))"
proof (cases "failure s")
  case None
  assume u: "pk_unique s"
  have "map Number (map (\<lambda>r. if Number r = n \<and> Status r = ''registered''
        then r\<lparr>Address := a\<rparr> else r) (parcel s)) = map Number (parcel s)"
    by (rule update_keeps_numbers) simp
  then have "distinct (map Number (map (\<lambda>r. if Number r = n \<and> Status r = ''registered''
        then r\<lparr>Address := a\<rparr> else r) (parcel s)))"
    using u by (simp only: pk_unique_def)
  then show ?thesis using None by (simp add: SetAddress_runs pk_unique_def del: map_map)
next
  case (Some msg)
  assume "pk_unique s"
  with Some show ?thesis by (simp add: SetAddress_def Exec_update_address_def)
qed

lemma pk_unique_Delete: "pk_unique s \<Longrightarrow> pk_unique (snd (Delete n s))"
proof (cases "failure s")
  case None
  assume "pk_unique s"
  with None show ?thesis by (simp add: Delete_runs pk_unique_def distinct_map_filter)
next
  case (Some msg)
  assume "pk_unique s"
  with Some show ?thesis by (simp add: Delete_def Exec_delete_def)
qed

lemma pk_unique_Add: "pk_unique s \<Longrightarrow> pk_unique (snd (Add p s))"
proof -
  assume u: "pk_unique s"
  have "next_number s \<notin> Number ` set (parcel s)"
    using next_number_fresh [of _ s] by force
  with u show ?thesis
    by (simp add: Add_def Exec_insert_def LastInsertId_def Let_def pk_unique_def
        split: option.splits)
qed

lemma failure_SetStatus: "failure (snd (SetStatus n st s)) = failure s"
  by (simp add: SetStatus_def Exec_update_status_def split: option.splits)

lemma failure_SetAddress: "failure (snd (SetAddress n a s)) = failure s"
  by (simp add: SetAddress_def Exec_update_address_def split: option.splits)

lemma failure_Delete: "failure (snd (Delete n s)) = failure s"
  by (simp add: Delete_def Exec_delete_def split: option.splits)

lemma SetStatus_row:
  assumes "failure s = None" and "r \<in> set (parcel s)"
  shows "r\<lparr>Status := st\<rparr> \<in> set (parcel (snd (SetStatus (Number r) st s)))"
proof -
  have "(\<lambda>x. if Number x = Number r then x\<lparr>Status := st\<rparr> else x) r \<in>
      (\<lambda>x. if Number x = Number r then x\<lparr>Status := st\<rparr> else x) ` set (parcel s)"
    using assms(2) by (rule imageI)
  then show ?thesis using assms(1) by (simp add: SetStatus_runs)
qed

lemma SetAddress_row:
  assumes "failure s = None" and "r \<in> set (parcel s)" and "Status r = ''registered''"
  shows "r\<lparr>Address := a\<rparr> \<in> set (parcel (snd (SetAddress (Number r) a s)))"
proof -
  have "(\<lambda>x. if Number x = Number r \<and> Status x = ''registered'' then x\<lparr>Address := a\<rparr> else x) r \<in>
      (\<lambda>x. if Number x = Number r \<and> Status x = ''registered'' then x\<lparr>Address := a\<rparr> else x)
        ` set (parcel s)"
    using assms(2) by (rule imageI)
  then show ?thesis using assms(1,3) by (simp add: SetAddress_runs)
qed

lemma SetAddress_blocked:
  assumes "failure s = None"
    and "\<forall>x\<in>set (parcel s). \<not> (Number x = n \<and> Status x = ''registered'')"
  shows "snd (SetAddress n a s) = s"
proof -
  have "map (\<lambda>r. if Number r = n \<and> Status r = ''registered'' then r\<lparr>Address := a\<rparr> else r)
      (parcel s) = parcel s"
    using assms(2) by (rule update_nothing)
  then show ?thesis using assms(1) by (simp add: SetAddress_runs)
qed

lemma Delete_blocked:
  assumes "failure s = None"
    and "\<forall>x\<in>set (parcel s). \<not> (Number x = n \<and> Status x = ''registered'')"
  shows "snd (Delete n s) = s"
proof -
  have "filter (\<lambda>r. \<not> (Number r = n \<and> Status r = ''registered'')) (parcel s) = parcel s"
    using assms(2) by (rule delete_nothing)
  then show ?thesis using assms(1) by (simp add: Delete_runs)
qed

lemma Delete_row:
  assumes "failure s = None" and "pk_unique s" and "r \<in> set (parcel s)"
    and "Status r = ''registered''"
  shows "parcel (snd (Delete (Number r) s)) = filter (\<lambda>x. Number x \<noteq> Number r) (parcel s)"
proof -
  have "filter (\<lambda>x. \<not> (Number x = Number r \<and> Status x = ''registered'')) (parcel s)
      = filter (\<lambda>x. Number x \<noteq> Number r) (parcel s)"
  proof (rule filter_cong [OF refl])
    fix x
    assume "x \<in> set (parcel s)"
    then show "(\<not> (Number x = Number r \<and> Status x = ''registered'')) = (Number x \<noteq> Number r)"
      using same_number_same_row [OF assms(2,3), of x] assms(4) by auto
  qed
  then show ?thesis using assms(1) by (simp add: Delete_runs)
qed

lemma Add_result:
  assumes "Add p s = (Inr N, s')"
  shows "failure s = None" and "N = next_number s"
    and "s' = s\<lparr>parcel := parcel s @
        [\<lparr>Number = next_number s, Client = Client p, Status = Status p,
          Address = Address p, CreatedAt = CreatedAt p\<rparr>],
       sqlite_sequence := next_number s\<rparr>"
  using assms
  by (auto simp: Add_def Exec_insert_def LastInsertId_def Let_def
      split: option.splits if_splits)

lemma Get_Inr:
  assumes "Get n s = Inr r"
  shows "failure s = None" and "r \<in> set (parcel s)" and "Number r = n"
proof -
  show ok: "failure s = None"
    using assms by (cases "failure s") (simp_all add: Get_def QueryRow_number_def)
  obtain rest where "filter (\<lambda>x. Number x = n) (parcel s) = r # rest"
    using assms ok
    by (cases "filter (\<lambda>x. Number x = n) (parcel s)") (simp_all add: Get_def QueryRow_number_def)
  then have "r \<in> set (filter (\<lambda>x. Number x = n) (parcel s))"
    by simp
  then show "r \<in> set (parcel s)" and "Number r = n"
    by simp_all
qed

lemma Get_ErrNoRows:
  assumes "Get n s = Inl ErrNoRows"
  shows "\<forall>r\<in>set (parcel s). Number r \<noteq> n"
proof -
  have ok: "failure s = None"
    using assms by (cases "failure s") (simp_all add: Get_def QueryRow_number_def)
  have "filter (\<lambda>x. Number x = n) (parcel s) = []"
    using assms ok
    by (cases "filter (\<lambda>x. Number x = n) (parcel s)") (simp_all add: Get_def QueryRow_number_def)
  then show ?thesis by (simp add: filter_empty_conv)
qed

lemma GetByClient_runs:
  "failure s = None \<Longrightarrow> cursor_fault s = None \<Longrightarrow>
   GetByClient c s = Inr (filter (\<lambda>r. Client r = c) (parcel s))"
  by (simp add: GetByClient_def Query_client_def rows_loop_append)

lemma GetByClient_cut_off:
  assumes "failure s = None" and "cursor_fault s = Some (k, msg)"
    and "Suc k < length (filter (\<lambda>r. Client r = c) (parcel s))"
  shows "Query_client c s =
      Inr (Rows (take (Suc k) (filter (\<lambda>r. Client r = c) (parcel s))) (Some (EngineFailure msg)))"
    and "GetByClient c s = Inr (take (Suc k) (filter (\<lambda>r. Client r = c) (parcel s)))"
  using assms by (simp_all add: GetByClient_def Query_client_def rows_loop_append)

lemma frame_update:
  assumes "\<And>r. Number r \<noteq> n \<Longrightarrow> f r = r" and "\<And>r. Number (f r) = Number r"
  shows "filter (\<lambda>r. Number r \<noteq> n) (map f rows) = filter (\<lambda>r. Number r \<noteq> n) rows"
  using assms by (induction rows) simp_all

lemma frame_update_select:
  assumes "\<And>r. Number r \<noteq> n \<Longrightarrow> f r = r" and "\<And>r. Number (f r) = Number r" and "m \<noteq> n"
  shows "filter (\<lambda>r. Number r = m) (map f rows) = filter (\<lambda>r. Number r = m) rows"
  using assms by (induction rows) auto

lemma frame_delete:
  "filter (\<lambda>r. Number r \<noteq> n) (filter (\<lambda>r. \<not> (Number r = n \<and> Q r)) rows)
     = filter (\<lambda>r. Number r \<noteq> n) rows"
  by (induction rows) simp_all

lemma frame_delete_select:
  "m \<noteq> n \<Longrightarrow>
   filter (\<lambda>r. Number r = m) (filter (\<lambda>r. \<not> (Number r = n \<and> Q r)) rows)
     = filter (\<lambda>r. Number r = m) rows"
  by (induction rows) auto

lemma Add_keeps_rows: "r \<in> set (parcel s) \<Longrightarrow> r \<in> set (parcel (snd (Add p s)))"
  by (simp add: Add_def Exec_insert_def LastInsertId_def Let_def split: option.splits)

lemma SetStatus_touches_status:
  assumes "r \<in> set (parcel s)"
  shows "\<exists>r'\<in>set (parcel (snd (SetStatus n st s))).
     Number r' = Number r \<and> Client r' = Client r \<and> CreatedAt r' = CreatedAt r
     \<and> Address r' = Address r \<and> (Status r' \<noteq> Status r \<longrightarrow> Number r = n)"
proof (cases "failure s")
  case (Some msg)
  then have "snd (SetStatus n st s) = s"
    by (simp add: SetStatus_def Exec_update_status_def)
  with assms show ?thesis by auto
next
  case None
  show ?thesis
  proof (cases "Number r = n")
    case True
    then have mem: "r\<lparr>Status := st\<rparr> \<in> set (parcel (snd (SetStatus n st s)))"
      using SetStatus_row [OF None assms] by simp
    show ?thesis by (rule bexI [OF _ mem]) (simp add: True)
  next
    case False
    have "(\<lambda>x. if Number x = n then x\<lparr>Status := st\<rparr> else x) r = r"
      by (simp add: False)
    then have "r \<in> (\<lambda>x. if Number x = n then x\<lparr>Status := st\<rparr> else x) ` set (parcel s)"
      using assms by (intro image_eqI [where x = r]) simp_all
    then have "r \<in> set (parcel (snd (SetStatus n st s)))"
      by (simp add: SetStatus_runs [OF None])
    then show ?thesis by auto
  qed
qed

lemma SetAddress_touches_address:
  assumes "r \<in> set (parcel s)"
  shows "\<exists>r'\<in>set (parcel (snd (SetAddress n a s))).
     Number r' = Number r \<and> Client r' = Client r \<and> CreatedAt r' = CreatedAt r
     \<and> Status r' = Status r \<and> (Address r' \<noteq> Address r \<longrightarrow> Number r = n)"
proof (cases "failure s")
  case (Some msg)
  then have "snd (SetAddress n a s) = s"
    by (simp add: SetAddress_def Exec_update_address_def)
  with assms show ?thesis by auto
next
  case None
  show ?thesis
  proof (cases "Number r = n \<and> Status r = ''registered''")
    case True
    then have mem: "r\<lparr>Address := a\<rparr> \<in> set (parcel (snd (SetAddress n a s)))"
      using SetAddress_row [OF None assms] by auto
    show ?thesis by (rule bexI [OF _ mem]) (simp add: True)
  next
    case False
    have "(\<lambda>x. if Number x = n \<and> Status x = ''registered'' then x\<lparr>Address := a\<rparr> else x) r = r"
      by (simp add: False)
    then have "r \<in> (\<lambda>x. if Number x = n \<and> Status x = ''registered'' then x\<lparr>Address := a\<rparr> else x)
        ` set (parcel s)"
      using assms by (intro image_eqI [where x = r]) simp_all
    then have "r \<in> set (parcel (snd (SetAddress n a s)))"
      by (simp add: SetAddress_runs [OF None])
    then show ?thesis by auto
  qed
qed

lemma Delete_keeps_or_removes:
  assumes "pk_unique s" and "r \<in> set (parcel s)"
  shows "r \<in> set (parcel (snd (Delete n s)))
     \<or> (n = Number r \<and> Status r = ''registered''
        \<and> (\<forall>r'\<in>set (parcel (snd (Delete n s))). Number r' \<noteq> Number r))"
proof (cases "failure s")
  case (Some msg)
  then have "snd (Delete n s) = s"
    by (simp add: Delete_def Exec_delete_def)
  with assms(2) show ?thesis by simp
next
  case None
  show ?thesis
  proof (cases "Number r = n \<and> Status r = ''registered''")
    case True
    then have "parcel (snd (Delete n s)) = filter (\<lambda>x. Number x \<noteq> Number r) (parcel s)"
      using Delete_row [OF None assms] by auto
    with True show ?thesis by simp
  next
    case False
    with assms(2) show ?thesis by (auto simp: Delete_runs [OF None])
  qed
qed

text \<open>Every call keeps the numbers unique, so every database reached from one with
  unique numbers (an empty table, for one) has unique numbers.\<close>

lemma pk_unique_apply_op: "pk_unique s \<Longrightarrow> pk_unique (apply_op op s)"
  by (cases op)
    (simp_all add: pk_unique_Add pk_unique_SetStatus pk_unique_SetAddress pk_unique_Delete)

lemma pk_unique_run: "pk_unique s \<Longrightarrow> pk_unique (run ops s)"
  by (induction ops arbitrary: s) (simp_all add: pk_unique_apply_op)

lemma pk_unique_empty: "parcel s = [] \<Longrightarrow> pk_unique s"
  by (simp add: pk_unique_def)

text \<open>When the engine cannot execute statements, every method hands its error back and
  the database stays as it is.\<close>

lemma engine_failure_propagates:
  assumes "failure s = Some msg"
  shows "Add p s = (Inl (EngineFailure msg), s)"
    and "Get n s = Inl (EngineFailure msg)"
    and "GetByClient c s = Inl (EngineFailure msg)"
    and "SetStatus n st s = (Some (EngineFailure msg), s)"
    and "SetAddress n a s = (Some (EngineFailure msg), s)"
    and "Delete n s = (Some (EngineFailure msg), s)"
  using assms
  by (simp_all add: Add_def Exec_insert_def Get_def QueryRow_number_def GetByClient_def
      Query_client_def SetStatus_def Exec_update_status_def SetAddress_def
      Exec_update_address_def Delete_def Exec_delete_def)

section \<open>Round trip and key generation\<close>

text \<open>
  C3. Round trip: whenever \<open>Add p\<close> succeeds and returns the number \<open>N\<close>, \<open>Get N\<close> on
  the resulting database returns \<open>p\<close> with its \<open>Number\<close> field set to \<open>N\<close>: the fields
  \<open>Client\<close>, \<open>Status\<close>, \<open>Address\<close> and \<open>CreatedAt\<close> are those of \<open>p\<close>.
\<close>

theorem Add_Get_round_trip:
  assumes "Add p s = (Inr N, s')"
  shows "Get N s' = Inr (p\<lparr>Number := N\<rparr>)"
proof -
  note ok = Add_result(1) [OF assms] and N = Add_result(2) [OF assms]
    and s' = Add_result(3) [OF assms]
  have "filter (\<lambda>r. Number r = N) (parcel s') = [p\<lparr>Number := N\<rparr>]"
    using filter_fresh_empty [of s] by (simp add: N s')
  then show ?thesis
    using ok by (simp add: Get_def QueryRow_number_def s')
qed

theorem Add_Get_round_trip_witness:
  "Add test_parcel test_db =
     (Inr 3, test_db\<lparr>parcel := parcel test_db @ [test_parcel\<lparr>Number := 3\<rparr>],
                    sqlite_sequence := 3\<rparr>)
   \<and> Get 3 (test_db\<lparr>parcel := parcel test_db @ [test_parcel\<lparr>Number := 3\<rparr>],
                    sqlite_sequence := 3\<rparr>) = Inr (test_parcel\<lparr>Number := 3\<rparr>)"
proof -
  have h: "Add test_parcel test_db =
     (Inr 3, test_db\<lparr>parcel := parcel test_db @ [test_parcel\<lparr>Number := 3\<rparr>],
                    sqlite_sequence := 3\<rparr>)"
    by (simp add: Add_def Exec_insert_def LastInsertId_def next_number_def max_rowid_def
        test_parcel_def test_db_def)
  show ?thesis using h Add_Get_round_trip [OF h] by simp
qed

text \<open>
  C9. \<open>Add\<close> does not read the \<open>Number\<close> field of its argument: two parcels that agree
  in \<open>Client\<close>, \<open>Status\<close>, \<open>Address\<close> and \<open>CreatedAt\<close> give the same returned number (or
  error) and the same resulting database.
\<close>

theorem Add_ignores_Number:
  assumes "Client p = Client p'" and "Status p = Status p'"
    and "Address p = Address p'" and "CreatedAt p = CreatedAt p'"
  shows "Add p s = Add p' s"
  using assms by (simp add: Add_def)

theorem Add_ignores_Number_witness:
  "Client test_parcel = Client (test_parcel\<lparr>Number := 77\<rparr>)
   \<and> Status test_parcel = Status (test_parcel\<lparr>Number := 77\<rparr>)
   \<and> Address test_parcel = Address (test_parcel\<lparr>Number := 77\<rparr>)
   \<and> CreatedAt test_parcel = CreatedAt (test_parcel\<lparr>Number := 77\<rparr>)
   \<and> Number test_parcel \<noteq> Number (test_parcel\<lparr>Number := 77\<rparr>)
   \<and> Add test_parcel test_db = Add (test_parcel\<lparr>Number := 77\<rparr>) test_db
   \<and> fst (Add test_parcel test_db) = Inr 3"
proof -
  have eq: "Add test_parcel test_db = Add (test_parcel\<lparr>Number := 77\<rparr>) test_db"
    by (rule Add_ignores_Number) simp_all
  have "fst (Add test_parcel test_db) = Inr 3"
    by (simp add: Add_def Exec_insert_def LastInsertId_def next_number_def max_rowid_def
        test_parcel_def test_db_def)
  with eq show ?thesis by (simp add: test_parcel_def)
qed

section \<open>The status gate\<close>

text \<open>
  C1. While the engine executes statements and the numbers are unique, \<open>SetAddress n a\<close>
  returns no error; for a stored row with number \<open>n\<close> it changes the address to \<open>a\<close>
  (and nothing else of the row) when the row's status is \<open>registered\<close>, and leaves the
  whole database as it was when the status is anything else; it also leaves the database
  as it was when no row has number \<open>n\<close>.
\<close>

theorem SetAddress_gated:
  assumes "failure s = None" and "pk_unique s"
  shows "fst (SetAddress n a s) = None
    \<and> (\<forall>r\<in>set (parcel s). Number r = n \<longrightarrow>
          (Status r = ''registered'' \<longrightarrow>
             Get n (snd (SetAddress n a s)) = Inr (r\<lparr>Address := a\<rparr>))
        \<and> (Status r \<noteq> ''registered'' \<longrightarrow> snd (SetAddress n a s) = s))
    \<and> ((\<forall>r\<in>set (parcel s). Number r \<noteq> n) \<longrightarrow> snd (SetAddress n a s) = s)"
proof (intro conjI ballI impI)
  show "fst (SetAddress n a s) = None"
    using assms(1) by (simp add: SetAddress_runs)
next
  fix r
  assume r: "r \<in> set (parcel s)" and n: "Number r = n" and reg: "Status r = ''registered''"
  have "failure (snd (SetAddress n a s)) = None"
    using assms(1) by (simp add: failure_SetAddress)
  moreover have "pk_unique (snd (SetAddress n a s))"
    using assms(2) by (rule pk_unique_SetAddress)
  moreover have "r\<lparr>Address := a\<rparr> \<in> set (parcel (snd (SetAddress n a s)))"
    using SetAddress_row [OF assms(1) r reg] n by simp
  ultimately have "Get (Number (r\<lparr>Address := a\<rparr>)) (snd (SetAddress n a s)) = Inr (r\<lparr>Address := a\<rparr>)"
    by (rule Get_finds_row)
  then show "Get n (snd (SetAddress n a s)) = Inr (r\<lparr>Address := a\<rparr>)"
    using n by simp
next
  fix r
  assume r: "r \<in> set (parcel s)" and n: "Number r = n" and other: "Status r \<noteq> ''registered''"
  have "\<forall>x\<in>set (parcel s). \<not> (Number x = n \<and> Status x = ''registered'')"
    using same_number_same_row [OF assms(2) r] n other by auto
  with assms(1) show "snd (SetAddress n a s) = s"
    by (rule SetAddress_blocked)
next
  assume "\<forall>r\<in>set (parcel s). Number r \<noteq> n"
  then have "\<forall>x\<in>set (parcel s). \<not> (Number x = n \<and> Status x = ''registered'')"
    by simp
  with assms(1) show "snd (SetAddress n a s) = s"
    by (rule SetAddress_blocked)
qed

theorem SetAddress_gated_witness:
  "failure test_db = None \<and> pk_unique test_db
   \<and> fst (SetAddress 1 ''new address'' test_db) = None
   \<and> Get 1 (snd (SetAddress 1 ''new address'' test_db)) =
       Inr \<lparr>Number = 1, Client = 1000, Status = ''registered'', Address = ''new address'',
            CreatedAt = ''2024-01-01T00:00:00Z''\<rparr>
   \<and> snd (SetAddress 2 ''blocked'' test_db) = test_db
   \<and> snd (SetAddress 5 ''nowhere'' test_db) = test_db"
proof -
  have h1: "failure test_db = None" by (simp add: test_db_def)
  have h2: "pk_unique test_db" by (simp add: pk_unique_def test_db_def)
  have rows: "parcel test_db =
       [\<lparr>Number = 1, Client = 1000, Status = ''registered'', Address = ''test'',
          CreatedAt = ''2024-01-01T00:00:00Z''\<rparr>,
        \<lparr>Number = 2, Client = 1000, Status = ''sent'', Address = ''new address'',
          CreatedAt = ''2024-01-01T00:00:00Z''\<rparr>]"
    by (simp add: test_db_def)
  show ?thesis
    using h1 h2 SetAddress_gated [OF h1 h2, of 1 "''new address''"]
      SetAddress_gated [OF h1 h2, of 2 "''blocked''"]
      SetAddress_gated [OF h1 h2, of 5 "''nowhere''"]
    by (simp add: rows)
qed

text \<open>
  C2. While the engine executes statements and the numbers are unique, \<open>Delete n\<close> returns
  no error; when a row with number \<open>n\<close> and status \<open>registered\<close> exists, the table
  afterwards is the table without that row, and \<open>Get n\<close> reports \<open>ErrNoRows\<close>; in every
  other case the database is as it was. In particular, when \<open>Add p\<close> succeeded for a
  parcel \<open>p\<close> with status \<open>registered\<close> and returned \<open>N\<close>, then \<open>Delete N\<close> returns no
  error and \<open>Get N\<close> reports \<open>ErrNoRows\<close> afterwards.
\<close>

theorem Delete_gated:
  assumes "failure s = None" and "pk_unique s"
  shows "fst (Delete n s) = None
    \<and> ((\<exists>r\<in>set (parcel s). Number r = n \<and> Status r = ''registered'') \<longrightarrow>
          parcel (snd (Delete n s)) = filter (\<lambda>x. Number x \<noteq> n) (parcel s)
        \<and> Get n (snd (Delete n s)) = Inl ErrNoRows)
    \<and> (\<not> (\<exists>r\<in>set (parcel s). Number r = n \<and> Status r = ''registered'') \<longrightarrow>
          snd (Delete n s) = s)
    \<and> (Status p = ''registered'' \<and> Add p s = (Inr N, s1) \<longrightarrow>
          fst (Delete N s1) = None \<and> Get N (snd (Delete N s1)) = Inl ErrNoRows)"
proof (intro conjI impI)
  show "fst (Delete n s) = None"
    using assms(1) by (simp add: Delete_runs)
next
  assume "\<exists>r\<in>set (parcel s). Number r = n \<and> Status r = ''registered''"
  then obtain r where r: "r \<in> set (parcel s)" and n: "Number r = n"
    and reg: "Status r = ''registered''" by blast
  show gone: "parcel (snd (Delete n s)) = filter (\<lambda>x. Number x \<noteq> n) (parcel s)"
    using Delete_row [OF assms r reg] n by simp
  have "failure (snd (Delete n s)) = None"
    using assms(1) by (simp add: failure_Delete)
  moreover have "\<forall>x\<in>set (parcel (snd (Delete n s))). Number x \<noteq> n"
    by (simp add: gone)
  ultimately show "Get n (snd (Delete n s)) = Inl ErrNoRows"
    by (rule Get_no_row)
next
  assume "\<not> (\<exists>r\<in>set (parcel s). Number r = n \<and> Status r = ''registered'')"
  then have "\<forall>x\<in>set (parcel s). \<not> (Number x = n \<and> Status x = ''registered'')"
    by blast
  with assms(1) show "snd (Delete n s) = s"
    by (rule Delete_blocked)
next
  assume a: "Status p = ''registered'' \<and> Add p s = (Inr N, s1)"
  then have add: "Add p s = (Inr N, s1)" and reg: "Status p = ''registered''"
    by simp_all
  note N = Add_result(2) [OF add] and s1 = Add_result(3) [OF add]
  have ok1: "failure s1 = None"
    using assms(1) by (simp add: s1)
  then show "fst (Delete N s1) = None"
    by (simp add: Delete_runs)
  have old: "\<forall>x\<in>set (parcel s). Number x \<noteq> N"
    using next_number_fresh [of _ s] N by fastforce
  have "failure (snd (Delete N s1)) = None"
    using ok1 by (simp add: failure_Delete)
  moreover have "\<forall>x\<in>set (parcel (snd (Delete N s1))). Number x \<noteq> N"
  proof -
    have rows1: "parcel s1 = parcel s @
        [\<lparr>Number = N, Client = Client p, Status = Status p,
          Address = Address p, CreatedAt = CreatedAt p\<rparr>]"
      by (simp add: s1 N)
    have "parcel (snd (Delete N s1)) =
        filter (\<lambda>r. \<not> (Number r = N \<and> Status r = ''registered'')) (parcel s1)"
      using ok1 by (simp add: Delete_runs)
    then show ?thesis
      unfolding rows1 using old reg by auto
  qed
  ultimately show "Get N (snd (Delete N s1)) = Inl ErrNoRows"
    by (rule Get_no_row)
qed

theorem Delete_gated_witness:
  "failure test_db = None \<and> pk_unique test_db
   \<and> fst (Delete 1 test_db) = None
   \<and> parcel (snd (Delete 1 test_db)) =
       [\<lparr>Number = 2, Client = 1000, Status = ''sent'', Address = ''new address'',
          CreatedAt = ''2024-01-01T00:00:00Z''\<rparr>]
   \<and> Get 1 (snd (Delete 1 test_db)) = Inl ErrNoRows
   \<and> snd (Delete 2 test_db) = test_db
   \<and> snd (Delete 5 test_db) = test_db
   \<and> Status test_parcel = ''registered''
   \<and> Add test_parcel test_db =
       (Inr 3, test_db\<lparr>parcel := parcel test_db @ [test_parcel\<lparr>Number := 3\<rparr>],
                      sqlite_sequence := 3\<rparr>)
   \<and> Get 3 (snd (Delete 3 (test_db\<lparr>parcel := parcel test_db @ [test_parcel\<lparr>Number := 3\<rparr>],
                      sqlite_sequence := 3\<rparr>))) = Inl ErrNoRows"
proof -
  have h1: "failure test_db = None" by (simp add: test_db_def)
  have h2: "pk_unique test_db" by (simp add: pk_unique_def test_db_def)
  have rows: "parcel test_db =
       [\<lparr>Number = 1, Client = 1000, Status = ''registered'', Address = ''test'',
          CreatedAt = ''2024-01-01T00:00:00Z''\<rparr>,
        \<lparr>Number = 2, Client = 1000, Status = ''sent'', Address = ''new address'',
          CreatedAt = ''2024-01-01T00:00:00Z''\<rparr>]"
    by (simp add: test_db_def)
  have reg: "Status test_parcel = ''registered''" by (simp add: test_parcel_def)
  have add: "Add test_parcel test_db =
       (Inr 3, test_db\<lparr>parcel := parcel test_db @ [test_parcel\<lparr>Number := 3\<rparr>],
                      sqlite_sequence := 3\<rparr>)"
    by (simp add: Add_def Exec_insert_def LastInsertId_def next_number_def max_rowid_def
        test_parcel_def test_db_def)
  have "fst (Delete 1 test_db) = None
    \<and> parcel (snd (Delete 1 test_db)) =
       [\<lparr>Number = 2, Client = 1000, Status = ''sent'', Address = ''new address'',
          CreatedAt = ''2024-01-01T00:00:00Z''\<rparr>]
    \<and> Get 1 (snd (Delete 1 test_db)) = Inl ErrNoRows"
    using Delete_gated [OF h1 h2, of 1] by (simp add: rows)
  moreover have "snd (Delete 2 test_db) = test_db"
    using Delete_gated [OF h1 h2, of 2] by (simp add: rows)
  moreover have "snd (Delete 5 test_db) = test_db"
    using Delete_gated [OF h1 h2, of 5] by (simp add: rows)
  moreover have "Get 3 (snd (Delete 3 (test_db\<lparr>parcel := parcel test_db @ [test_parcel\<lparr>Number := 3\<rparr>],
                      sqlite_sequence := 3\<rparr>))) = Inl ErrNoRows"
    using Delete_gated [OF h1 h2, of 0 test_parcel 3
        "test_db\<lparr>parcel := parcel test_db @ [test_parcel\<lparr>Number := 3\<rparr>], sqlite_sequence := 3\<rparr>"]
      reg add by simp
  ultimately show ?thesis using h1 h2 reg add by simp
qed

text \<open>
  C4. While the engine executes statements and the numbers are unique, \<open>SetStatus n st\<close>
  returns no error; a stored row with number \<open>n\<close> has status \<open>st\<close> afterwards and is
  otherwise as before, whatever its status was; when no row has number \<open>n\<close> the database
  is as it was.
\<close>

theorem SetStatus_unconditional:
  assumes "failure s = None" and "pk_unique s"
  shows "fst (SetStatus n st s) = None
    \<and> (\<forall>r\<in>set (parcel s). Number r = n \<longrightarrow>
          Get n (snd (SetStatus n st s)) = Inr (r\<lparr>Status := st\<rparr>))
    \<and> ((\<forall>r\<in>set (parcel s). Number r \<noteq> n) \<longrightarrow> snd (SetStatus n st s) = s)"
proof (intro conjI ballI impI)
  show "fst (SetStatus n st s) = None"
    using assms(1) by (simp add: SetStatus_runs)
next
  fix r
  assume r: "r \<in> set (parcel s)" and n: "Number r = n"
  have "failure (snd (SetStatus n st s)) = None"
    using assms(1) by (simp add: failure_SetStatus)
  moreover have "pk_unique (snd (SetStatus n st s))"
    using assms(2) by (rule pk_unique_SetStatus)
  moreover have "r\<lparr>Status := st\<rparr> \<in> set (parcel (snd (SetStatus n st s)))"
    using SetStatus_row [OF assms(1) r] n by simp
  ultimately have "Get (Number (r\<lparr>Status := st\<rparr>)) (snd (SetStatus n st s)) = Inr (r\<lparr>Status := st\<rparr>)"
    by (rule Get_finds_row)
  then show "Get n (snd (SetStatus n st s)) = Inr (r\<lparr>Status := st\<rparr>)"
    using n by simp
next
  assume "\<forall>r\<in>set (parcel s). Number r \<noteq> n"
  then have "\<forall>r\<in>set (parcel s). \<not> Number r = n" by simp
  then have "map (\<lambda>r. if Number r = n then r\<lparr>Status := st\<rparr> else r) (parcel s) = parcel s"
    by (rule update_nothing)
  then show "snd (SetStatus n st s) = s"
    using assms(1) by (simp add: SetStatus_runs)
qed

theorem SetStatus_unconditional_witness:
  "failure test_db = None \<and> pk_unique test_db
   \<and> fst (SetStatus 1 ''sent'' test_db) = None
   \<and> Get 1 (snd (SetStatus 1 ''sent'' test_db)) =
       Inr \<lparr>Number = 1, Client = 1000, Status = ''sent'', Address = ''test'',
            CreatedAt = ''2024-01-01T00:00:00Z''\<rparr>
   \<and> Get 2 (snd (SetStatus 2 ''delivered'' test_db)) =
       Inr \<lparr>Number = 2, Client = 1000, Status = ''delivered'', Address = ''new address'',
            CreatedAt = ''2024-01-01T00:00:00Z''\<rparr>
   \<and> fst (SetStatus 5 ''sent'' test_db) = None
   \<and> snd (SetStatus 5 ''sent'' test_db) = test_db"
proof -
  have h1: "failure test_db = None" by (simp add: test_db_def)
  have h2: "pk_unique test_db" by (simp add: pk_unique_def test_db_def)
  have rows: "parcel test_db =
       [\<lparr>Number = 1, Client = 1000, Status = ''registered'', Address = ''test'',
          CreatedAt = ''2024-01-01T00:00:00Z''\<rparr>,
        \<lparr>Number = 2, Client = 1000, Status = ''sent'', Address = ''new address'',
          CreatedAt = ''2024-01-01T00:00:00Z''\<rparr>]"
    by (simp add: test_db_def)
  show ?thesis
    using h1 h2 SetStatus_unconditional [OF h1 h2, of 1 "''sent''"]
      SetStatus_unconditional [OF h1 h2, of 2 "''delivered''"]
      SetStatus_unconditional [OF h1 h2, of 5 "''sent''"]
    by (simp add: rows)
qed

text \<open>
  C7. Setting the status back to \<open>registered\<close> opens the gate again. While the engine
  executes statements and the numbers are unique, for a stored row \<open>r\<close> with number \<open>n\<close>
  and any status: \<open>SetStatus n ''registered''\<close> returns no error, and on the database it
  leaves, \<open>SetAddress n a\<close> returns no error and \<open>Get n\<close> then returns \<open>r\<close> with status
  \<open>registered\<close> and address \<open>a\<close>, and \<open>Delete n\<close> returns no error and \<open>Get n\<close> then
  reports \<open>ErrNoRows\<close>.
\<close>

theorem SetStatus_registered_reopens:
  assumes "failure s = None" and "pk_unique s" and "r \<in> set (parcel s)" and "Number r = n"
  shows "fst (SetStatus n ''registered'' s) = None
    \<and> fst (SetAddress n a (snd (SetStatus n ''registered'' s))) = None
    \<and> Get n (snd (SetAddress n a (snd (SetStatus n ''registered'' s)))) =
        Inr (r\<lparr>Status := ''registered'', Address := a\<rparr>)
    \<and> fst (Delete n (snd (SetStatus n ''registered'' s))) = None
    \<and> Get n (snd (Delete n (snd (SetStatus n ''registered'' s)))) = Inl ErrNoRows"
proof -
  define s1 where "s1 = snd (SetStatus n ''registered'' s)"
  define r1 where "r1 = r\<lparr>Status := ''registered''\<rparr>"
  have ok1: "failure s1 = None"
    using assms(1) by (simp add: s1_def failure_SetStatus)
  have u1: "pk_unique s1"
    unfolding s1_def using assms(2) by (rule pk_unique_SetStatus)
  have r1: "r1 \<in> set (parcel s1)"
    using SetStatus_row [OF assms(1,3), of "''registered''"] assms(4)
    by (simp add: s1_def r1_def)
  have n1: "Number r1 = n" and reg1: "Status r1 = ''registered''"
    using assms(4) by (simp_all add: r1_def)
  have c1: "fst (SetStatus n ''registered'' s) = None"
    using assms(1) by (simp add: SetStatus_runs)
  have c2: "fst (SetAddress n a s1) = None"
    using ok1 by (simp add: SetAddress_runs)
  have "failure (snd (SetAddress n a s1)) = None"
    using ok1 by (simp add: failure_SetAddress)
  moreover have "pk_unique (snd (SetAddress n a s1))"
    using u1 by (rule pk_unique_SetAddress)
  moreover have "r1\<lparr>Address := a\<rparr> \<in> set (parcel (snd (SetAddress n a s1)))"
    using SetAddress_row [OF ok1 r1 reg1] n1 by simp
  ultimately have "Get (Number (r1\<lparr>Address := a\<rparr>)) (snd (SetAddress n a s1)) = Inr (r1\<lparr>Address := a\<rparr>)"
    by (rule Get_finds_row)
  then have c3: "Get n (snd (SetAddress n a s1)) = Inr (r\<lparr>Status := ''registered'', Address := a\<rparr>)"
    using n1 by (simp add: r1_def)
  have c4: "fst (Delete n s1) = None"
    using ok1 by (simp add: Delete_runs)
  have gone: "parcel (snd (Delete n s1)) = filter (\<lambda>x. Number x \<noteq> n) (parcel s1)"
    using Delete_row [OF ok1 u1 r1 reg1] n1 by simp
  have "failure (snd (Delete n s1)) = None"
    using ok1 by (simp add: failure_Delete)
  moreover have "\<forall>x\<in>set (parcel (snd (Delete n s1))). Number x \<noteq> n"
    by (simp add: gone)
  ultimately have c5: "Get n (snd (Delete n s1)) = Inl ErrNoRows"
    by (rule Get_no_row)
  from c1 c2 c3 c4 c5 show ?thesis
    by (simp add: s1_def)
qed

theorem SetStatus_registered_reopens_witness:
  "failure test_db = None \<and> pk_unique test_db
   \<and> \<lparr>Number = 2, Client = 1000, Status = ''sent'', Address = ''new address'',
        CreatedAt = ''2024-01-01T00:00:00Z''\<rparr> \<in> set (parcel test_db)
   \<and> Get 2 (snd (SetAddress 2 ''reopened'' test_db)) =
       Inr \<lparr>Number = 2, Client = 1000, Status = ''sent'', Address = ''new address'',
            CreatedAt = ''2024-01-01T00:00:00Z''\<rparr>
   \<and> Get 2 (snd (SetAddress 2 ''reopened'' (snd (SetStatus 2 ''registered'' test_db)))) =
       Inr \<lparr>Number = 2, Client = 1000, Status = ''registered'', Address = ''reopened'',
            CreatedAt = ''2024-01-01T00:00:00Z''\<rparr>
   \<and> Get 2 (snd (Delete 2 (snd (SetStatus 2 ''registered'' test_db)))) = Inl ErrNoRows"
proof -
  have h1: "failure test_db = None" by (simp add: test_db_def)
  have h2: "pk_unique test_db" by (simp add: pk_unique_def test_db_def)
  have h3: "\<lparr>Number = 2, Client = 1000, Status = ''sent'', Address = ''new address'',
        CreatedAt = ''2024-01-01T00:00:00Z''\<rparr> \<in> set (parcel test_db)"
    by (simp add: test_db_def)
  have before: "Get 2 (snd (SetAddress 2 ''reopened'' test_db)) =
       Inr \<lparr>Number = 2, Client = 1000, Status = ''sent'', Address = ''new address'',
            CreatedAt = ''2024-01-01T00:00:00Z''\<rparr>"
    by (simp add: Get_def QueryRow_number_def SetAddress_def Exec_update_address_def test_db_def)
  show ?thesis
    using h1 h2 h3 before
      SetStatus_registered_reopens [OF h1 h2 h3, of 2 "''reopened''"]
    by simp
qed

section \<open>Reads\<close>

text \<open>
  C5. While the engine executes statements, \<open>Get n\<close> reports \<open>ErrNoRows\<close> exactly when no
  row has number \<open>n\<close>. A parcel that \<open>Get n\<close> returns is a stored row with number \<open>n\<close>,
  and the only such row when the numbers are unique. No other method ever returns
  \<open>ErrNoRows\<close>, whatever the state of the engine.
\<close>

theorem Get_not_found:
  "(failure s = None \<longrightarrow>
      (Get n s = Inl ErrNoRows \<longleftrightarrow> (\<forall>r\<in>set (parcel s). Number r \<noteq> n)))
   \<and> (Get n s = Inr r \<longrightarrow>
        r \<in> set (parcel s) \<and> Number r = n
        \<and> (pk_unique s \<longrightarrow> (\<forall>r'\<in>set (parcel s). Number r' = n \<longrightarrow> r' = r)))
   \<and> fst (Add p s) \<noteq> Inl ErrNoRows
   \<and> GetByClient c s \<noteq> Inl ErrNoRows
   \<and> fst (SetStatus m st s) \<noteq> Some ErrNoRows
   \<and> fst (SetAddress m a s) \<noteq> Some ErrNoRows
   \<and> fst (Delete m s) \<noteq> Some ErrNoRows"
proof (intro conjI impI)
  assume "failure s = None"
  then show "Get n s = Inl ErrNoRows \<longleftrightarrow> (\<forall>r\<in>set (parcel s). Number r \<noteq> n)"
    using Get_ErrNoRows [of n s] Get_no_row [of s n] by blast
next
  assume g: "Get n s = Inr r"
  show "r \<in> set (parcel s)" by (rule Get_Inr(2) [OF g])
  show "Number r = n" by (rule Get_Inr(3) [OF g])
  assume u: "pk_unique s"
  show "\<forall>r'\<in>set (parcel s). Number r' = n \<longrightarrow> r' = r"
    using same_number_same_row [OF u Get_Inr(2) [OF g]] Get_Inr(3) [OF g] by simp
next
  show "fst (Add p s) \<noteq> Inl ErrNoRows"
    by (simp add: Add_def Exec_insert_def LastInsertId_def Let_def split: option.splits)
next
  show "GetByClient c s \<noteq> Inl ErrNoRows"
    by (simp add: GetByClient_def Query_client_def rows_loop_append Let_def
        split: option.splits prod.splits)
next
  show "fst (SetStatus m st s) \<noteq> Some ErrNoRows"
    by (simp add: SetStatus_def Exec_update_status_def split: option.splits)
next
  show "fst (SetAddress m a s) \<noteq> Some ErrNoRows"
    by (simp add: SetAddress_def Exec_update_address_def split: option.splits)
next
  show "fst (Delete m s) \<noteq> Some ErrNoRows"
    by (simp add: Delete_def Exec_delete_def split: option.splits)
qed

theorem Get_not_found_witness:
  "failure test_db = None \<and> pk_unique test_db
   \<and> Get 5 test_db = Inl ErrNoRows
   \<and> Get 2 test_db =
       Inr \<lparr>Number = 2, Client = 1000, Status = ''sent'', Address = ''new address'',
            CreatedAt = ''2024-01-01T00:00:00Z''\<rparr>
   \<and> \<lparr>Number = 2, Client = 1000, Status = ''sent'', Address = ''new address'',
            CreatedAt = ''2024-01-01T00:00:00Z''\<rparr> \<in> set (parcel test_db)"
proof -
  have h1: "failure test_db = None" by (simp add: test_db_def)
  have h2: "pk_unique test_db" by (simp add: pk_unique_def test_db_def)
  have rows: "parcel test_db =
       [\<lparr>Number = 1, Client = 1000, Status = ''registered'', Address = ''test'',
          CreatedAt = ''2024-01-01T00:00:00Z''\<rparr>,
        \<lparr>Number = 2, Client = 1000, Status = ''sent'', Address = ''new address'',
          CreatedAt = ''2024-01-01T00:00:00Z''\<rparr>]"
    by (simp add: test_db_def)
  have g: "Get 2 test_db =
       Inr \<lparr>Number = 2, Client = 1000, Status = ''sent'', Address = ''new address'',
            CreatedAt = ''2024-01-01T00:00:00Z''\<rparr>"
    by (simp add: Get_def QueryRow_number_def test_db_def)
  have "Get 5 test_db = Inl ErrNoRows"
    using h1 Get_not_found [of test_db 5] by (simp add: rows)
  moreover have "\<lparr>Number = 2, Client = 1000, Status = ''sent'', Address = ''new address'',
            CreatedAt = ''2024-01-01T00:00:00Z''\<rparr> \<in> set (parcel test_db)"
    using g Get_not_found [of test_db 2
        "\<lparr>Number = 2, Client = 1000, Status = ''sent'', Address = ''new address'',
            CreatedAt = ''2024-01-01T00:00:00Z''\<rparr>"]
    by blast
  ultimately show ?thesis using h1 h2 g by simp
qed

text \<open>While the engine executes statements and no result set is cut off,
  \<open>GetByClient c\<close> returns no error and a list that holds exactly the stored rows whose
  \<open>Client\<close> is \<open>c\<close>, each as stored and as often as stored, so without repetition when
  the numbers are unique; the list is empty when no row matches.\<close>

lemma GetByClient_uninterrupted:
  assumes "failure s = None" and "cursor_fault s = None"
  shows "\<exists>rs. GetByClient c s = Inr rs
    \<and> set rs = {r \<in> set (parcel s). Client r = c}
    \<and> mset rs = filter_mset (\<lambda>r. Client r = c) (mset (parcel s))
    \<and> (pk_unique s \<longrightarrow> distinct (map Number rs))
    \<and> ((\<forall>r\<in>set (parcel s). Client r \<noteq> c) \<longrightarrow> rs = [])"
proof (intro exI conjI impI)
  show "GetByClient c s = Inr (filter (\<lambda>r. Client r = c) (parcel s))"
    using assms by (rule GetByClient_runs)
  show "set (filter (\<lambda>r. Client r = c) (parcel s)) = {r \<in> set (parcel s). Client r = c}"
    by simp
  show "mset (filter (\<lambda>r. Client r = c) (parcel s)) =
      filter_mset (\<lambda>r. Client r = c) (mset (parcel s))"
    by simp
next
  assume "pk_unique s"
  then show "distinct (map Number (filter (\<lambda>r. Client r = c) (parcel s)))"
    by (simp add: pk_unique_def distinct_map_filter)
next
  assume "\<forall>r\<in>set (parcel s). Client r \<noteq> c"
  then show "filter (\<lambda>r. Client r = c) (parcel s) = []"
    by (simp add: filter_empty_conv)
qed

text \<open>
  C6. \<open>GetByClient c\<close> is to return exactly the stored rows whose \<open>Client\<close> is \<open>c\<close>, none
  omitted. The method leaves its loop when \<open>Next\<close> returns false and returns what it has
  gathered with a \<open>nil\<close> error, without reading \<open>rows.Err()\<close>. On the database \<open>cut_db\<close>
  the engine executes statements, two rows have client 1000, and the result set ends with
  an error after the first of them: the query holds that error, yet \<open>GetByClient 1000\<close>
  returns the first row alone and no error, so the second row is omitted.
\<close>

theorem GetByClient_omits_row_without_error:
  "failure cut_db = None
   \<and> pk_unique cut_db
   \<and> filter (\<lambda>r. Client r = 1000) (parcel cut_db) =
       [\<lparr>Number = 1, Client = 1000, Status = ''registered'', Address = ''test'',
          CreatedAt = ''2024-01-01T00:00:00Z''\<rparr>,
        \<lparr>Number = 2, Client = 1000, Status = ''sent'', Address = ''new address'',
          CreatedAt = ''2024-01-01T00:00:00Z''\<rparr>]
   \<and> Query_client 1000 cut_db =
       Inr (Rows [\<lparr>Number = 1, Client = 1000, Status = ''registered'', Address = ''test'',
                   CreatedAt = ''2024-01-01T00:00:00Z''\<rparr>]
                 (Some (EngineFailure ''interrupted'')))
   \<and> GetByClient 1000 cut_db =
       Inr [\<lparr>Number = 1, Client = 1000, Status = ''registered'', Address = ''test'',
             CreatedAt = ''2024-01-01T00:00:00Z''\<rparr>]"
  by (simp add: cut_db_def test_db_def pk_unique_def GetByClient_def Query_client_def
      Rows_Scan_def)

section \<open>Frame and immutable fields\<close>

text \<open>
  C10. Frame: after \<open>SetStatus n st\<close>, \<open>SetAddress n a\<close> or \<open>Delete n\<close>, the rows whose
  number differs from \<open>n\<close> are the same rows, in the same order, as before, and \<open>Get m\<close>
  for a number \<open>m\<close> other than \<open>n\<close> returns what it returned before.
\<close>

theorem mutations_frame:
  "filter (\<lambda>r. Number r \<noteq> n) (parcel (snd (SetStatus n st s)))
      = filter (\<lambda>r. Number r \<noteq> n) (parcel s)
   \<and> filter (\<lambda>r. Number r \<noteq> n) (parcel (snd (SetAddress n a s)))
      = filter (\<lambda>r. Number r \<noteq> n) (parcel s)
   \<and> filter (\<lambda>r. Number r \<noteq> n) (parcel (snd (Delete n s)))
      = filter (\<lambda>r. Number r \<noteq> n) (parcel s)
   \<and> (m \<noteq> n \<longrightarrow>
        Get m (snd (SetStatus n st s)) = Get m s
      \<and> Get m (snd (SetAddress n a s)) = Get m s
      \<and> Get m (snd (Delete n s)) = Get m s)"
proof (cases "failure s")
  case (Some msg)
  then have "snd (SetStatus n st s) = s" and "snd (SetAddress n a s) = s"
    and "snd (Delete n s) = s"
    by (simp_all add: SetStatus_def Exec_update_status_def SetAddress_def
        Exec_update_address_def Delete_def Exec_delete_def)
  then show ?thesis by simp
next
  case None
  have st1: "filter (\<lambda>r. Number r \<noteq> n)
      (map (\<lambda>r. if Number r = n then r\<lparr>Status := st\<rparr> else r) (parcel s))
      = filter (\<lambda>r. Number r \<noteq> n) (parcel s)"
    by (rule frame_update) simp_all
  have ad1: "filter (\<lambda>r. Number r \<noteq> n)
      (map (\<lambda>r. if Number r = n \<and> Status r = ''registered'' then r\<lparr>Address := a\<rparr> else r)
        (parcel s))
      = filter (\<lambda>r. Number r \<noteq> n) (parcel s)"
    by (rule frame_update) simp_all
  have de1: "filter (\<lambda>r. Number r \<noteq> n)
      (filter (\<lambda>r. \<not> (Number r = n \<and> Status r = ''registered'')) (parcel s))
      = filter (\<lambda>r. Number r \<noteq> n) (parcel s)"
    by (rule frame_delete)
  have rows: "filter (\<lambda>r. Number r \<noteq> n) (parcel (snd (SetStatus n st s)))
        = filter (\<lambda>r. Number r \<noteq> n) (parcel s)
     \<and> filter (\<lambda>r. Number r \<noteq> n) (parcel (snd (SetAddress n a s)))
        = filter (\<lambda>r. Number r \<noteq> n) (parcel s)
     \<and> filter (\<lambda>r. Number r \<noteq> n) (parcel (snd (Delete n s)))
        = filter (\<lambda>r. Number r \<noteq> n) (parcel s)"
    using st1 ad1 de1
    by (simp add: SetStatus_runs [OF None] SetAddress_runs [OF None] Delete_runs [OF None]
        del: map_map filter_filter filter_map)
  have gets: "Get m (snd (SetStatus n st s)) = Get m s
      \<and> Get m (snd (SetAddress n a s)) = Get m s
      \<and> Get m (snd (Delete n s)) = Get m s" if "m \<noteq> n"
  proof -
    have st2: "filter (\<lambda>r. Number r = m)
        (map (\<lambda>r. if Number r = n then r\<lparr>Status := st\<rparr> else r) (parcel s))
        = filter (\<lambda>r. Number r = m) (parcel s)"
      using that by (intro frame_update_select) simp_all
    have ad2: "filter (\<lambda>r. Number r = m)
        (map (\<lambda>r. if Number r = n \<and> Status r = ''registered'' then r\<lparr>Address := a\<rparr> else r)
          (parcel s))
        = filter (\<lambda>r. Number r = m) (parcel s)"
      using that by (intro frame_update_select) simp_all
    have de2: "filter (\<lambda>r. Number r = m)
        (filter (\<lambda>r. \<not> (Number r = n \<and> Status r = ''registered'')) (parcel s))
        = filter (\<lambda>r. Number r = m) (parcel s)"
      using that by (rule frame_delete_select)
    show ?thesis
      using st2 ad2 de2 None
      by (simp add: Get_def QueryRow_number_def SetStatus_runs [OF None]
          SetAddress_runs [OF None] Delete_runs [OF None]
          del: map_map filter_filter filter_map)
  qed
  from rows gets show ?thesis by blast
qed

theorem mutations_frame_witness:
  "(1::int) \<noteq> 2
   \<and> Get 1 (snd (SetStatus 2 ''delivered'' test_db)) = Get 1 test_db
   \<and> Get 1 (snd (SetAddress 2 ''elsewhere'' test_db)) = Get 1 test_db
   \<and> Get 2 (snd (Delete 1 test_db)) = Get 2 test_db
   \<and> Get 2 test_db =
       Inr \<lparr>Number = 2, Client = 1000, Status = ''sent'', Address = ''new address'',
            CreatedAt = ''2024-01-01T00:00:00Z''\<rparr>
   \<and> parcel (snd (Delete 1 test_db)) \<noteq> parcel test_db"
proof -
  have g: "Get 2 test_db =
       Inr \<lparr>Number = 2, Client = 1000, Status = ''sent'', Address = ''new address'',
            CreatedAt = ''2024-01-01T00:00:00Z''\<rparr>"
    by (simp add: Get_def QueryRow_number_def test_db_def)
  have d: "parcel (snd (Delete 1 test_db)) \<noteq> parcel test_db"
    by (simp add: Delete_def Exec_delete_def test_db_def)
  show ?thesis
    using g d mutations_frame [of 2 "''delivered''" test_db "''elsewhere''" 1]
      mutations_frame [of 1 "''x''" test_db "''y''" 2]
    by simp
qed

text \<open>
  C8. Immutable fields. In a database with unique numbers, which every call keeps unique,
  a stored row \<open>r\<close> survives any call of the interface with its \<open>Number\<close>, \<open>Client\<close> and
  \<open>CreatedAt\<close> as they were; its \<open>Status\<close> differs afterwards only if the call was
  \<open>SetStatus\<close> on its number and its \<open>Address\<close> only if the call was \<open>SetAddress\<close> on
  its number. The one exception is \<open>Delete\<close> on its number while it is \<open>registered\<close>,
  after which no row has that number.
\<close>

theorem identity_fields_immutable:
  assumes "pk_unique s" and "r \<in> set (parcel s)"
  shows "pk_unique (apply_op op s)
    \<and> ((\<exists>r'\<in>set (parcel (apply_op op s)).
           Number r' = Number r \<and> Client r' = Client r \<and> CreatedAt r' = CreatedAt r
           \<and> (Status r' \<noteq> Status r \<longrightarrow> (\<exists>st. op = OpSetStatus (Number r) st))
           \<and> (Address r' \<noteq> Address r \<longrightarrow> (\<exists>a. op = OpSetAddress (Number r) a)))
       \<or> (op = OpDelete (Number r) \<and> Status r = ''registered''
          \<and> (\<forall>r'\<in>set (parcel (apply_op op s)). Number r' \<noteq> Number r)))"
proof (cases op)
  case (OpAdd p)
  have "pk_unique (snd (Add p s))" using assms(1) by (rule pk_unique_Add)
  moreover have "r \<in> set (parcel (snd (Add p s)))" using assms(2) by (rule Add_keeps_rows)
  ultimately show ?thesis using OpAdd by auto
next
  case (OpGet n)
  with assms show ?thesis by auto
next
  case (OpGetByClient c)
  with assms show ?thesis by auto
next
  case (OpSetStatus n st)
  have "pk_unique (snd (SetStatus n st s))" using assms(1) by (rule pk_unique_SetStatus)
  moreover obtain r' where "r' \<in> set (parcel (snd (SetStatus n st s)))"
    and "Number r' = Number r" and "Client r' = Client r" and "CreatedAt r' = CreatedAt r"
    and "Address r' = Address r" and "Status r' \<noteq> Status r \<longrightarrow> Number r = n"
    using SetStatus_touches_status [OF assms(2), of n st] by blast
  ultimately show ?thesis using OpSetStatus by auto
next
  case (OpSetAddress n a)
  have "pk_unique (snd (SetAddress n a s))" using assms(1) by (rule pk_unique_SetAddress)
  moreover obtain r' where "r' \<in> set (parcel (snd (SetAddress n a s)))"
    and "Number r' = Number r" and "Client r' = Client r" and "CreatedAt r' = CreatedAt r"
    and "Status r' = Status r" and "Address r' \<noteq> Address r \<longrightarrow> Number r = n"
    using SetAddress_touches_address [OF assms(2), of n a] by blast
  ultimately show ?thesis using OpSetAddress by auto
next
  case (OpDelete n)
  have "pk_unique (snd (Delete n s))" using assms(1) by (rule pk_unique_Delete)
  moreover have "r \<in> set (parcel (snd (Delete n s)))
     \<or> (n = Number r \<and> Status r = ''registered''
        \<and> (\<forall>r'\<in>set (parcel (snd (Delete n s))). Number r' \<noteq> Number r))"
    using assms by (rule Delete_keeps_or_removes)
  ultimately show ?thesis using OpDelete by auto
qed

theorem identity_fields_immutable_witness:
  "pk_unique test_db
   \<and> \<lparr>Number = 1, Client = 1000, Status = ''registered'', Address = ''test'',
        CreatedAt = ''2024-01-01T00:00:00Z''\<rparr> \<in> set (parcel test_db)
   \<and> pk_unique (apply_op (OpSetStatus 1 ''sent'') test_db)
   \<and> pk_unique (apply_op (OpAdd test_parcel) test_db)
   \<and> parcel (apply_op (OpSetStatus 1 ''sent'') test_db) =
       [\<lparr>Number = 1, Client = 1000, Status = ''sent'', Address = ''test'',
          CreatedAt = ''2024-01-01T00:00:00Z''\<rparr>,
        \<lparr>Number = 2, Client = 1000, Status = ''sent'', Address = ''new address'',
          CreatedAt = ''2024-01-01T00:00:00Z''\<rparr>]
   \<and> parcel (apply_op (OpDelete 1) test_db) =
       [\<lparr>Number = 2, Client = 1000, Status = ''sent'', Address = ''new address'',
          CreatedAt = ''2024-01-01T00:00:00Z''\<rparr>]"
proof -
  have h1: "pk_unique test_db" by (simp add: pk_unique_def test_db_def)
  have h2: "\<lparr>Number = 1, Client = 1000, Status = ''registered'', Address = ''test'',
        CreatedAt = ''2024-01-01T00:00:00Z''\<rparr> \<in> set (parcel test_db)"
    by (simp add: test_db_def)
  have "pk_unique (apply_op (OpSetStatus 1 ''sent'') test_db)"
    using identity_fields_immutable [OF h1 h2, of "OpSetStatus 1 ''sent''"] by blast
  moreover have "pk_unique (apply_op (OpAdd test_parcel) test_db)"
    using identity_fields_immutable [OF h1 h2, of "OpAdd test_parcel"] by blast
  moreover have "parcel (apply_op (OpSetStatus 1 ''sent'') test_db) =
       [\<lparr>Number = 1, Client = 1000, Status = ''sent'', Address = ''test'',
          CreatedAt = ''2024-01-01T00:00:00Z''\<rparr>,
        \<lparr>Number = 2, Client = 1000, Status = ''sent'', Address = ''new address'',
          CreatedAt = ''2024-01-01T00:00:00Z''\<rparr>]"
    by (simp add: SetStatus_def Exec_update_status_def test_db_def)
  moreover have "parcel (apply_op (OpDelete 1) test_db) =
       [\<lparr>Number = 2, Client = 1000, Status = ''sent'', Address = ''new address'',
          CreatedAt = ''2024-01-01T00:00:00Z''\<rparr>]"
    by (simp add: Delete_def Exec_delete_def test_db_def)
  ultimately show ?thesis using h1 h2 by simp
qed

end
